theory Spec2Isabelle
  imports Complex_Main
begin

section \<open>Tacotron2 synthesis loop of espnet\_onnx\<close>

text \<open>
  A shallow embedding of \<^verbatim>\<open>espnet_onnx/tts/model/tts_models/tacotron2.py\<close>.

  Modelling decisions.
  \<^item> A numpy array is a shape and its elements in row-major order. Elements are exact
    rationals: float32 rounding, infinities and NaN are not modelled, and neither is the
    dtype.
  \<^item> The four onnxruntime sessions (encoder, predecoder, decoder, postdecoder) are
    deterministic functions that return their outputs or fail.
  \<^item> Every Python exception the code can raise is a value of \<open>error\<close>; a function
    that can raise returns \<open>error + 'a\<close>.
  \<^item> The instance \<^verbatim>\<open>self\<close> is a record. \<^verbatim>\<open>init_state\<close> assigns the
    attributes \<^verbatim>\<open>pre_compute_enc_h\<close>, \<^verbatim>\<open>enc_h\<close> and \<^verbatim>\<open>mask\<close>; it
    returns the updated record. An attribute not yet assigned is \<open>None\<close>.
  \<^item> The \<^verbatim>\<open>while True\<close> loop may run forever: it is a partial function into
    \<open>option\<close>, and \<open>None\<close> is non-termination.
\<close>

subsection \<open>Errors and arrays\<close>

datatype error =
    AssertionError
  | ValueError
  | AxisError
  | IndexError
  | TypeError
  | AttributeError
  | InferenceError nat  \<comment> \<open>a failure raised inside an onnxruntime session\<close>

datatype ndarray = NDArray (shape: "nat list") (data: "rat list")

type_synonym feed = "string \<rightharpoonup> ndarray"

text \<open>\<^verbatim>\<open>len(a)\<close> and \<^verbatim>\<open>a.shape[0]\<close>: both fail on a 0-d array.\<close>

definition len :: "ndarray \<Rightarrow> error + nat" where
  "len a = (case shape a of [] \<Rightarrow> Inl TypeError | n # _ \<Rightarrow> Inr n)"

definition shape0 :: "ndarray \<Rightarrow> error + nat" where
  "shape0 a = (case shape a of [] \<Rightarrow> Inl IndexError | n # _ \<Rightarrow> Inr n)"

text \<open>\<^verbatim>\<open>x[None, :]\<close>: a new leading axis of length 1; a 0-d array has no axis for the slice.\<close>

definition expand0 :: "ndarray \<Rightarrow> error + ndarray" where
  "expand0 x = (case shape x of [] \<Rightarrow> Inl IndexError | _ # _ \<Rightarrow> Inr (NDArray (1 # shape x) (data x)))"

text \<open>\<^verbatim>\<open>np.zeros(shp)\<close>: a negative dimension is a ValueError.\<close>

definition zeros :: "int list \<Rightarrow> error + ndarray" where
  "zeros shp =
     (if list_ex (\<lambda>d. d < 0) shp then Inl ValueError
      else Inr (NDArray (map nat shp) (replicate (prod_list (map nat shp)) 0)))"

text \<open>
  \<^verbatim>\<open>np.concatenate(arrs, axis)\<close>. It needs at least one array, no 0-d array, an axis
  inside the rank, and arrays of one rank whose shapes agree outside the axis. In row-major
  order the result is, for each index of the axes before \<open>axis\<close>, the blocks of the
  arrays one after the other.
\<close>

definition inner :: "nat \<Rightarrow> ndarray \<Rightarrow> nat" where
  "inner axis b = prod_list (drop axis (shape b))"

definition concatenate :: "ndarray list \<Rightarrow> nat \<Rightarrow> error + ndarray" where
  "concatenate arrs axis =
     (case arrs of
        [] \<Rightarrow> Inl ValueError
      | a # rest \<Rightarrow>
          if shape a = [] then Inl ValueError
          else if length (shape a) \<le> axis then Inl AxisError
          else if list_ex (\<lambda>b. length (shape b) \<noteq> length (shape a)
                                \<or> (shape b)[axis := 0] \<noteq> (shape a)[axis := 0]) rest
          then Inl ValueError
          else Inr (NDArray
                 ((shape a)[axis := sum_list (map (\<lambda>b. shape b ! axis) arrs)])
                 (concat (map (\<lambda>k. concat (map (\<lambda>b. take (inner axis b) (drop (k * inner axis b) (data b))) arrs))
                              [0..<prod_list (take axis (shape a))]))))"

text \<open>
  Modelled from the spec: \<^verbatim>\<open>make_pad_mask\<close> of \<^verbatim>\<open>espnet_onnx.utils.function\<close> is
  imported by the source and is not part of it. The spec describes its result as the mask
  of a "count-based pad predicate", "length L, boolean, all false when unpadded
  single-utterance inference": one row per length, as wide as the longest length, where
  position \<open>j\<close> of the row of length \<open>l\<close> is padded (1) exactly when \<open>l \<le> j\<close>.
\<close>

definition make_pad_mask :: "nat list \<Rightarrow> ndarray" where
  "make_pad_mask lengths =
     (let m = fold max lengths 0
      in NDArray [length lengths, m]
           (concat (map (\<lambda>l. map (\<lambda>j. if l \<le> j then 1 else 0) [0..<m]) lengths)))"

text \<open>Elementwise operations of the source on a whole array.\<close>

definition map_data :: "(rat \<Rightarrow> rat) \<Rightarrow> ndarray \<Rightarrow> ndarray" where
  "map_data f a = NDArray (shape a) (map f (data a))"

text \<open>\<^verbatim>\<open>int(q)\<close> of a Python number: truncation towards zero.\<close>

definition py_int :: "rat \<Rightarrow> int" where
  "py_int q = (if 0 \<le> q then \<lfloor>q\<rfloor> else \<lceil>q\<rceil>)"

text \<open>The decimal digits of an index, as the f-string \<^verbatim>\<open>f'c_prev_{i}'\<close> prints them.\<close>

fun str :: "nat \<Rightarrow> string" where
  "str n = (if n < 10 then [''0123456789'' ! n]
            else str (n div 10) @ [''0123456789'' ! (n mod 10)])"

declare str.simps [simp del]

subsection \<open>The instance\<close>

record decoder_config =
  dlayers :: int
  dunits :: int
  odim :: int
  reduction_factor :: int
  threshold :: rat
  maxlenratio :: rat
  minlenratio :: rat

text \<open>
  \<open>config\<close> is \<^verbatim>\<open>self.config.decoder\<close>. Each session is the function its
  \<^verbatim>\<open>run\<close> computes for the output names the source asks for: the encoder's \<^verbatim>\<open>h\<close>,
  the predecoder's \<^verbatim>\<open>pre_compute_enc_h\<close> from \<^verbatim>\<open>enc_h\<close>, the decoder's outputs in
  the order of \<^verbatim>\<open>decoder_output_names\<close>, the postdecoder's \<^verbatim>\<open>out\<close> from \<^verbatim>\<open>x\<close>.
  \<open>postdecoder\<close> is \<open>None\<close> when \<^verbatim>\<open>config.decoder.postdecoder.onnx_export\<close> is
  false. \<open>input_names\<close> are the encoder's declared inputs.
\<close>

record tacotron2 =
  config :: decoder_config
  encoder :: "feed \<Rightarrow> error + ndarray"
  predecoder :: "ndarray \<Rightarrow> error + ndarray"
  decoder :: "feed \<Rightarrow> error + ndarray list"
  postdecoder :: "(ndarray \<Rightarrow> error + ndarray) option"
  input_names :: "string list"
  pre_compute_enc_h :: "ndarray option"
  enc_h :: "ndarray option"
  self_mask :: "ndarray option"  \<comment> \<open>the attribute \<^verbatim>\<open>self.mask\<close>\<close>

subsection \<open>Marshalling the encoder's inputs\<close>

text \<open>
  \<^verbatim>\<open>_set_input_dict\<close>: a key the encoder declares must come with a value (the
  \<^verbatim>\<open>assert\<close>); a key it does not declare is left out.
\<close>

definition set_input_dict :: "tacotron2 \<Rightarrow> feed \<Rightarrow> string \<Rightarrow> ndarray option \<Rightarrow> error + feed" where
  "set_input_dict self dic key val =
     (if key \<in> set (input_names self) then
        (case val of None \<Rightarrow> Inl AssertionError | Some v \<Rightarrow> Inr (dic(key \<mapsto> v)))
      else Inr dic)"

definition get_input_enc ::
  "tacotron2 \<Rightarrow> ndarray \<Rightarrow> ndarray option \<Rightarrow> ndarray option \<Rightarrow> ndarray option \<Rightarrow> ndarray option
   \<Rightarrow> error + feed" where
  "get_input_enc self text feats sids spembs lids =
     (case set_input_dict self [''text'' \<mapsto> text] ''feats'' feats of Inl e \<Rightarrow> Inl e | Inr r1 \<Rightarrow>
      case set_input_dict self r1 ''sids'' sids of Inl e \<Rightarrow> Inl e | Inr r2 \<Rightarrow>
      case set_input_dict self r2 ''spembs'' spembs of Inl e \<Rightarrow> Inl e | Inr r3 \<Rightarrow>
      set_input_dict self r3 ''lids'' lids)"

subsection \<open>State initialisation\<close>

text \<open>\<^verbatim>\<open>zero_state(hs_pad)\<close>: \<^verbatim>\<open>np.zeros((hs_pad.shape[0], self.dunits))\<close>.\<close>

definition zero_state :: "tacotron2 \<Rightarrow> ndarray \<Rightarrow> error + ndarray" where
  "zero_state self hs_pad =
     (case shape0 hs_pad of Inl e \<Rightarrow> Inl e
      | Inr b \<Rightarrow> zeros [int b, dunits (config self)])"

text \<open>
  \<^verbatim>\<open>get_att_prev(x)\<close> with the default \<^verbatim>\<open>att_type=None\<close>, the only way the source
  calls it: \<^verbatim>\<open>(1.0 - make_pad_mask([L])) / L\<close> with \<open>L = x.shape[0]\<close>. The division
  is elementwise, so with \<open>L = 0\<close> nothing is divided.
\<close>

definition get_att_prev :: "ndarray \<Rightarrow> error + ndarray" where
  "get_att_prev x =
     (case shape0 x of Inl e \<Rightarrow> Inl e
      | Inr l \<Rightarrow> Inr (map_data (\<lambda>v. v / of_nat l) (map_data (\<lambda>v. 1 - v) (make_pad_mask [l]))))"

text \<open>
  \<^verbatim>\<open>init_state(x)\<close>. The statements run in the source's order, so a failure leaves the
  attributes as they were: they are assigned only after the predecoder has returned.
  \<^verbatim>\<open>zero_state(x[None, :])\<close> is evaluated once here; the source evaluates the same
  expression for every list entry.
\<close>

definition init_state ::
  "tacotron2 \<Rightarrow> ndarray
   \<Rightarrow> (error + (ndarray list \<times> ndarray list \<times> ndarray \<times> ndarray)) \<times> tacotron2" where
  "init_state self x =
     (case expand0 x of Inl e \<Rightarrow> (Inl e, self) | Inr xb \<Rightarrow>
      case zero_state self xb of Inl e \<Rightarrow> (Inl e, self) | Inr zs \<Rightarrow>
      let c_list = fold (\<lambda>_ l. l @ [zs]) [1..<nat (dlayers (config self))] [zs];
          z_list = fold (\<lambda>_ l. l @ [zs]) [1..<nat (dlayers (config self))] [zs]
      in
      case get_att_prev x of Inl e \<Rightarrow> (Inl e, self) | Inr a \<Rightarrow>
      case zeros [1, odim (config self)] of Inl e \<Rightarrow> (Inl e, self) | Inr prev_out \<Rightarrow>
      case predecoder self xb of Inl e \<Rightarrow> (Inl e, self) | Inr pc \<Rightarrow>
      let self1 = self\<lparr>pre_compute_enc_h := Some pc\<rparr>;
          self2 = self1\<lparr>enc_h := Some xb\<rparr>
      in
      case shape0 x of Inl e \<Rightarrow> (Inl e, self2) | Inr l \<Rightarrow>
      (Inr (c_list, z_list, a, prev_out),
       self2\<lparr>self_mask := Some (map_data (\<lambda>v. if v = 1 then - 10000 else 0) (make_pad_mask [l]))\<rparr>))"

subsection \<open>One decoder step\<close>

text \<open>
  \<^verbatim>\<open>get_input_dec\<close>: the decoder's inputs. Reading one of the three attributes before
  \<^verbatim>\<open>init_state\<close> has assigned it is an AttributeError.
\<close>

definition get_input_dec ::
  "tacotron2 \<Rightarrow> ndarray list \<Rightarrow> ndarray list \<Rightarrow> ndarray \<Rightarrow> ndarray \<Rightarrow> error + feed" where
  "get_input_dec self c_list z_list a_prev prev_in =
     (let ret = fold (\<lambda>(i, cl) m. m(''c_prev_'' @ str i \<mapsto> cl)) (enumerate 0 c_list) Map.empty;
          ret = fold (\<lambda>(i, zl) m. m(''z_prev_'' @ str i \<mapsto> zl)) (enumerate 0 z_list) ret
      in
      case pre_compute_enc_h self of None \<Rightarrow> Inl AttributeError | Some pceh \<Rightarrow>
      case enc_h self of None \<Rightarrow> Inl AttributeError | Some eh \<Rightarrow>
      case self_mask self of None \<Rightarrow> Inl AttributeError | Some mk \<Rightarrow>
      Inr (ret(''a_prev'' \<mapsto> a_prev, ''pceh'' \<mapsto> pceh, ''enc_h'' \<mapsto> eh,
               ''mask'' \<mapsto> mk, ''prev_in'' \<mapsto> prev_in)))"

text \<open>\<^verbatim>\<open>_split\<close>: the list is cut at \<^verbatim>\<open>len_list // 2\<close>. The source makes no check.\<close>

definition split_states :: "ndarray list \<Rightarrow> ndarray list \<times> ndarray list" where
  "split_states status_lists =
     (let len_list = length status_lists
      in (take (len_list div 2) status_lists, drop (len_list div 2) status_lists))"

text \<open>
  \<^verbatim>\<open>int(sum(prob >= threshold))\<close>. The builtin \<^verbatim>\<open>sum\<close> iterates over the first
  axis: a 0-d array cannot be iterated; an array whose first axis is empty sums to the
  integer 0; otherwise the sum is an array of the remaining shape, which \<^verbatim>\<open>int\<close>
  converts only when it has one element.
\<close>

definition stop_count :: "ndarray \<Rightarrow> rat \<Rightarrow> error + int" where
  "stop_count prob th =
     (case shape prob of
        [] \<Rightarrow> Inl TypeError
      | n # rest \<Rightarrow>
          if n = 0 then Inr 0
          else if prod_list rest = 1 then Inr (int (length (filter (\<lambda>p. th \<le> p) (data prob))))
          else Inl TypeError)"

subsection \<open>The synthesis loop\<close>

text \<open>The local variables of \<^verbatim>\<open>__call__\<close> that the loop reads and writes.\<close>

record loop_vars =
  idx :: int
  outs :: "ndarray list"
  probs :: "ndarray list"
  att_ws :: "ndarray list"
  c_list :: "ndarray list"
  z_list :: "ndarray list"
  a_prev :: ndarray
  prev_out :: ndarray

text \<open>
  One pass through the body of \<^verbatim>\<open>while True\<close>, up to the decision: the result is
  the variables after the pass and whether the loop is left (\<open>True\<close>, the path to
  \<^verbatim>\<open>break\<close>) or entered again (\<open>False\<close>: the \<^verbatim>\<open>continue\<close>, or the end of the
  body). Unpacking fewer than four outputs is a ValueError.
\<close>

definition loop_body :: "tacotron2 \<Rightarrow> int \<Rightarrow> int \<Rightarrow> loop_vars \<Rightarrow> error + bool \<times> loop_vars" where
  "loop_body self maxlen minlen s =
     (let idx' = idx s + reduction_factor (config self) in
      case get_input_dec self (c_list s) (z_list s) (a_prev s) (prev_out s) of
        Inl e \<Rightarrow> Inl e
      | Inr input_dec \<Rightarrow>
      case decoder self input_dec of
        Inl e \<Rightarrow> Inl e
      | Inr res \<Rightarrow>
      (case res of
         out # prob # a # p # cz_states \<Rightarrow>
           let s' = \<lparr>idx = idx', outs = outs s @ [out], probs = probs s @ [prob],
                     att_ws = att_ws s @ [a],
                     c_list = fst (split_states cz_states), z_list = snd (split_states cz_states),
                     a_prev = a, prev_out = p\<rparr>
           in
           (case stop_count prob (threshold (config self)) of
              Inl e \<Rightarrow> Inl e
            | Inr k \<Rightarrow>
                if 0 < k \<or> maxlen \<le> idx' then
                  (if idx' < minlen then Inr (False, s') else Inr (True, s'))
                else Inr (False, s'))
       | _ \<Rightarrow> Inl ValueError))"

text \<open>
  The loop: \<open>None\<close> when it runs forever, \<open>Some (Inl e)\<close> when a pass raises,
  \<open>Some (Inr s)\<close> with the variables at the moment the loop is left.
\<close>

partial_function (option) loop :: "tacotron2 \<Rightarrow> int \<Rightarrow> int \<Rightarrow> loop_vars \<Rightarrow> (error + loop_vars) option" where
  "loop self maxlen minlen s =
     (case loop_body self maxlen minlen s of
        Inl e \<Rightarrow> Some (Inl e)
      | Inr (brk, s') \<Rightarrow> if brk then Some (Inr s') else loop self maxlen minlen s')"

text \<open>
  The statements between the minimum-length check and \<^verbatim>\<open>break\<close>: the three
  concatenations and the optional postdecoder.
\<close>

record synthesis_result =
  feat_gen :: ndarray
  prob :: ndarray
  att_w :: ndarray

definition finish :: "tacotron2 \<Rightarrow> loop_vars \<Rightarrow> error + synthesis_result" where
  "finish self s =
     (case concatenate (outs s) 2 of Inl e \<Rightarrow> Inl e | Inr o1 \<Rightarrow>
      case (case postdecoder self of None \<Rightarrow> Inr o1 | Some post \<Rightarrow> post o1) of
        Inl e \<Rightarrow> Inl e
      | Inr o2 \<Rightarrow>
      case concatenate (probs s) 0 of Inl e \<Rightarrow> Inl e | Inr p \<Rightarrow>
      case concatenate (att_ws s) 0 of Inl e \<Rightarrow> Inl e | Inr a \<Rightarrow>
      Inr \<lparr>feat_gen = o2, prob = p, att_w = a\<rparr>)"

text \<open>
  \<^verbatim>\<open>__call__\<close>: the result, or the exception, and the instance as the call leaves it.
  \<open>None\<close> when the loop does not terminate.
\<close>

definition call ::
  "tacotron2 \<Rightarrow> ndarray \<Rightarrow> ndarray option \<Rightarrow> ndarray option \<Rightarrow> ndarray option \<Rightarrow> ndarray option
   \<Rightarrow> ((error + synthesis_result) \<times> tacotron2) option" where
  "call self text feats sids spembs lids =
     (case get_input_enc self text feats sids spembs lids of
        Inl e \<Rightarrow> Some (Inl e, self)
      | Inr input_enc \<Rightarrow>
      case encoder self input_enc of
        Inl e \<Rightarrow> Some (Inl e, self)
      | Inr h \<Rightarrow>
      case len text of
        Inl e \<Rightarrow> Some (Inl e, self)
      | Inr n \<Rightarrow>
      let maxlen = py_int (of_nat n * maxlenratio (config self));
          minlen = py_int (of_nat n * minlenratio (config self))
      in
      case init_state self h of
        (Inl e, self') \<Rightarrow> Some (Inl e, self')
      | (Inr (c, z, a, p), self') \<Rightarrow>
      (case loop self' maxlen minlen
              \<lparr>idx = 0, outs = [], probs = [], att_ws = [],
               c_list = c, z_list = z, a_prev = a, prev_out = p\<rparr> of
         None \<Rightarrow> None
       | Some (Inl e) \<Rightarrow> Some (Inl e, self')
       | Some (Inr s) \<Rightarrow> Some (finish self' s, self')))"

text \<open>
  The number of passes: \<open>loop_exits_after self maxlen minlen n s t\<close> holds when the loop
  started with the variables \<open>s\<close> is left in its \<open>n\<close>-th pass with the variables \<open>t\<close>,
  no pass before having raised.
\<close>

fun loop_exits_after :: "tacotron2 \<Rightarrow> int \<Rightarrow> int \<Rightarrow> nat \<Rightarrow> loop_vars \<Rightarrow> loop_vars \<Rightarrow> bool" where
  "loop_exits_after self maxlen minlen 0 s t = False"
| "loop_exits_after self maxlen minlen (Suc n) s t =
     (case loop_body self maxlen minlen s of
        Inl e \<Rightarrow> False
      | Inr (brk, s') \<Rightarrow>
          if brk then n = 0 \<and> t = s' else loop_exits_after self maxlen minlen n s' t)"

subsection \<open>Example instances\<close>

text \<open>
  A smallest instance for concrete runs: one decoder layer, one output dimension, one frame
  per pass, threshold 1/2. Its decoder returns the stop probability \<open>p\<close> in every pass and
  \<open>k\<close> trailing state arrays; its encoder returns an output of length 2.
\<close>

definition ex_frame :: ndarray where
  "ex_frame = NDArray [1, 1, 1] [0]"

definition ex_att :: ndarray where
  "ex_att = NDArray [1, 2] [1 / 2, 1 / 2]"

definition ex_vec :: ndarray where
  "ex_vec = NDArray [1, 1] [0]"

definition ex_decoder :: "rat \<Rightarrow> nat \<Rightarrow> feed \<Rightarrow> error + ndarray list" where
  "ex_decoder p k inp = Inr ([ex_frame, NDArray [1] [p], ex_att, ex_vec] @ replicate k ex_vec)"

definition ex_self :: "rat \<Rightarrow> nat \<Rightarrow> string list \<Rightarrow> tacotron2" where
  "ex_self p k names =
     \<lparr>config = \<lparr>dlayers = 1, dunits = 1, odim = 1, reduction_factor = 1, threshold = 1 / 2,
                 maxlenratio = 1, minlenratio = 0\<rparr>,
      encoder = (\<lambda>inp. Inr (NDArray [2, 1] [0, 0])),
      predecoder = (\<lambda>x. Inr x),
      decoder = ex_decoder p k,
      postdecoder = None,
      input_names = names,
      pre_compute_enc_h = None, enc_h = None, self_mask = None\<rparr>"

text \<open>The instance once \<^verbatim>\<open>init_state\<close> has run, and the loop's variables at its start.\<close>

definition ex_ready :: "rat \<Rightarrow> nat \<Rightarrow> tacotron2" where
  "ex_ready p k =
     (ex_self p k [''text''])\<lparr>pre_compute_enc_h := Some (NDArray [1, 2, 1] [0, 0]),
                               enc_h := Some (NDArray [1, 2, 1] [0, 0]),
                               self_mask := Some (NDArray [1, 2] [0, 0])\<rparr>"

definition ex_vars :: loop_vars where
  "ex_vars = \<lparr>idx = 0, outs = [], probs = [], att_ws = [],
              c_list = [ex_vec], z_list = [ex_vec], a_prev = ex_att, prev_out = ex_vec\<rparr>"

text \<open>The variables after one pass with the example decoder \<open>ex_decoder p 2\<close>.\<close>

definition ex_pass :: "rat \<Rightarrow> loop_vars \<Rightarrow> loop_vars" where
  "ex_pass p s =
     \<lparr>idx = idx s + 1, outs = outs s @ [ex_frame], probs = probs s @ [NDArray [1] [p]],
      att_ws = att_ws s @ [ex_att], c_list = [ex_vec], z_list = [ex_vec],
      a_prev = ex_att, prev_out = ex_vec\<rparr>"

section \<open>Properties\<close>

subsection \<open>One pass of the loop\<close>

lemma loop_body_vars:
  assumes "loop_body self maxlen minlen s = Inr (brk, s')"
  shows "idx s' = idx s + reduction_factor (config self)
       \<and> length (outs s') = Suc (length (outs s))
       \<and> length (probs s') = Suc (length (probs s))
       \<and> length (att_ws s') = Suc (length (att_ws s))"
  using assms
  by (auto simp: loop_body_def Let_def split: sum.splits list.splits if_splits)

lemma loop_body_outs:
  assumes "loop_body self maxlen minlen s = Inr (brk, s')"
  shows "\<exists>inp out rest. decoder self inp = Inr (out # rest) \<and> outs s' = outs s @ [out]"
  using assms
  by (fastforce simp: loop_body_def Let_def split: sum.splits list.splits if_splits)

lemma loop_body_break:
  assumes "loop_body self maxlen minlen s = Inr (brk, s')"
  shows "(brk \<longrightarrow> minlen \<le> idx s + reduction_factor (config self))
       \<and> (maxlen \<le> idx s + reduction_factor (config self)
            \<and> minlen \<le> idx s + reduction_factor (config self) \<longrightarrow> brk)"
  using assms
  by (auto simp: loop_body_def Let_def split: sum.splits list.splits if_splits)

lemma loop_continue:
  "loop_body self maxlen minlen s = Inr (False, s')
   \<Longrightarrow> loop self maxlen minlen s = loop self maxlen minlen s'"
  by (subst loop.simps) simp

lemma loop_break:
  "loop_body self maxlen minlen s = Inr (True, s')
   \<Longrightarrow> loop self maxlen minlen s = Some (Inr s')"
  by (subst loop.simps) simp


subsection \<open>The number of passes\<close>

lemma exits_after_loop:
  "loop_exits_after self maxlen minlen n s t \<Longrightarrow> loop self maxlen minlen s = Some (Inr t)"
proof (induction n arbitrary: s)
  case 0
  then show ?case by simp
next
  case (Suc n)
  then show ?case
    by (cases "loop_body self maxlen minlen s")
       (auto simp: loop_continue loop_break split: if_splits)
qed

lemma loop_result_exits_aux:
  "loop self maxlen minlen s = Some r
   \<Longrightarrow> (case r of Inl e \<Rightarrow> True | Inr t \<Rightarrow> \<exists>n. loop_exits_after self maxlen minlen n s t)"
proof (erule loop.raw_induct [rotated, where P = "\<lambda>self maxlen minlen s r.
          case r of Inl e \<Rightarrow> True | Inr t \<Rightarrow> \<exists>n. loop_exits_after self maxlen minlen n s t"],
       goal_cases)
  case (1 loop' self maxlen minlen s r)
  show ?case
  proof (cases "loop_body self maxlen minlen s")
    case (Inl e)
    with 1(2) show ?thesis by auto
  next
    case (Inr p)
    obtain brk s' where p: "p = (brk, s')" by (cases p)
    show ?thesis
    proof (cases brk)
      case True
      with 1(2) Inr p have "r = Inr s'" "loop_exits_after self maxlen minlen (Suc 0) s s'"
        by auto
      then show ?thesis by (auto simp del: loop_exits_after.simps)
    next
      case False
      with 1(2) Inr p have l: "loop' self maxlen minlen s' = Some r" by simp
      show ?thesis
      proof (cases r)
        case (Inl e)
        then show ?thesis by simp
      next
        case r: (Inr t)
        with 1(1) [OF l] obtain n where "loop_exits_after self maxlen minlen n s' t" by auto
        with Inr p False have "loop_exits_after self maxlen minlen (Suc n) s t" by simp
        with r show ?thesis by (auto simp del: loop_exits_after.simps)
      qed
    qed
  qed
qed

lemma loop_result_exits:
  "loop self maxlen minlen s = Some (Inr t) \<Longrightarrow> \<exists>n. loop_exits_after self maxlen minlen n s t"
  using loop_result_exits_aux [of self maxlen minlen s "Inr t"] by simp

lemma exits_after_vars:
  "loop_exits_after self maxlen minlen n s t
   \<Longrightarrow> idx t = idx s + int n * reduction_factor (config self)
     \<and> length (outs t) = length (outs s) + n
     \<and> length (probs t) = length (probs s) + n
     \<and> length (att_ws t) = length (att_ws s) + n"
proof (induction n arbitrary: s)
  case 0
  then show ?case by simp
next
  case (Suc n)
  show ?case
  proof (cases "loop_body self maxlen minlen s")
    case (Inl e)
    with Suc.prems show ?thesis by simp
  next
    case (Inr p)
    obtain brk s' where p: "p = (brk, s')" by (cases p)
    from Inr p have b: "loop_body self maxlen minlen s = Inr (brk, s')" by simp
    note v = loop_body_vars [OF b]
    show ?thesis
    proof (cases brk)
      case True
      with Suc.prems b have "n = 0" "t = s'" by simp_all
      with v show ?thesis by simp
    next
      case False
      with Suc.prems b have "loop_exits_after self maxlen minlen n s' t" by simp
      from Suc.IH [OF this] v show ?thesis by (simp add: algebra_simps)
    qed
  qed
qed

lemma exits_after_minlen:
  "loop_exits_after self maxlen minlen n s t \<Longrightarrow> minlen \<le> idx t"
proof (induction n arbitrary: s)
  case 0
  then show ?case by simp
next
  case (Suc n)
  show ?case
  proof (cases "loop_body self maxlen minlen s")
    case (Inl e)
    with Suc.prems show ?thesis by simp
  next
    case (Inr p)
    obtain brk s' where p: "p = (brk, s')" by (cases p)
    from Inr p have b: "loop_body self maxlen minlen s = Inr (brk, s')" by simp
    show ?thesis
    proof (cases brk)
      case True
      with Suc.prems b have "t = s'" by simp
      with loop_body_vars [OF b] loop_body_break [OF b] True show ?thesis by simp
    next
      case False
      with Suc.prems b have "loop_exits_after self maxlen minlen n s' t" by simp
      from Suc.IH [OF this] show ?thesis .
    qed
  qed
qed

lemma exits_after_frames:
  assumes dec: "\<And>inp out rest. decoder self inp = Inr (out # rest) \<Longrightarrow> shape out = shp"
  shows "loop_exits_after self maxlen minlen n s t
   \<Longrightarrow> list_all (\<lambda>a. shape a = shp) (outs s) \<Longrightarrow> list_all (\<lambda>a. shape a = shp) (outs t)"
proof (induction n arbitrary: s)
  case 0
  then show ?case by simp
next
  case (Suc n)
  show ?case
  proof (cases "loop_body self maxlen minlen s")
    case (Inl e)
    with Suc.prems show ?thesis by simp
  next
    case (Inr p)
    obtain brk s' where p: "p = (brk, s')" by (cases p)
    from Inr p have b: "loop_body self maxlen minlen s = Inr (brk, s')" by simp
    from loop_body_outs [OF b] dec Suc.prems(2)
    have o: "list_all (\<lambda>a. shape a = shp) (outs s')" by auto
    show ?thesis
    proof (cases brk)
      case True
      with Suc.prems b have "t = s'" by simp
      with o show ?thesis by simp
    next
      case False
      with Suc.prems b have "loop_exits_after self maxlen minlen n s' t" by simp
      from Suc.IH [OF this o] show ?thesis .
    qed
  qed
qed

lemma concatenate_last_axis:
  assumes "arrs \<noteq> []" and "list_all (\<lambda>a. shape a = [b, d, r]) arrs"
  shows "\<exists>fr. concatenate arrs 2 = Inr fr \<and> shape fr = [b, d, length arrs * r]"
proof -
  from assms obtain a rest where ar: "arrs = a # rest" by (cases arrs) auto
  have s: "sum_list (map (\<lambda>x. shape x ! 2) arrs) = length arrs * r"
    using assms(2) by (induction arrs) (auto simp: numeral_2_eq_2)
  have "\<not> list_ex (\<lambda>x. length (shape x) \<noteq> length (shape a)
                     \<or> (shape x)[2 := 0] \<noteq> (shape a)[2 := 0]) rest"
    using assms(2) ar by (auto simp: list_ex_iff list_all_iff)
  then show ?thesis
    using assms(2) ar s by (simp add: concatenate_def numeral_2_eq_2)
qed

subsection \<open>Termination\<close>


lemma init_state_self:
  "\<exists>a b c. snd (init_state self x) = self\<lparr>pre_compute_enc_h := a, enc_h := b, self_mask := c\<rparr>"
proof -
  have 0: "\<exists>a b c. self = self\<lparr>pre_compute_enc_h := a, enc_h := b, self_mask := c\<rparr>"
    by (rule exI [of _ "pre_compute_enc_h self"], rule exI [of _ "enc_h self"],
        rule exI [of _ "self_mask self"]) simp
  have 2: "\<exists>a b c. self\<lparr>pre_compute_enc_h := p, enc_h := q\<rparr>
             = self\<lparr>pre_compute_enc_h := a, enc_h := b, self_mask := c\<rparr>" for p q
    by (rule exI [of _ p], rule exI [of _ q], rule exI [of _ "self_mask self"]) simp
  have 3: "\<exists>a b c. self\<lparr>pre_compute_enc_h := p, enc_h := q, self_mask := m\<rparr>
             = self\<lparr>pre_compute_enc_h := a, enc_h := b, self_mask := c\<rparr>" for p q m
    by blast
  show ?thesis
    using 0 2 3 by (simp add: init_state_def Let_def split: sum.splits)
qed



subsection \<open>State initialisation\<close>

lemma make_pad_mask_single: "make_pad_mask [l] = NDArray [1, l] (replicate l 0)"
proof -
  have "map (\<lambda>j. if l \<le> j then 1 else (0::rat)) [0..<l] = map (\<lambda>j. 0) [0..<l]"
    by (rule map_cong) auto
  then show ?thesis
    by (simp add: make_pad_mask_def map_replicate_const)
qed




subsection \<open>The encoder's inputs\<close>

lemma set_input_dict_undeclared:
  "key \<notin> set (input_names self) \<Longrightarrow> set_input_dict self dic key val = Inr dic"
  by (simp add: set_input_dict_def)

lemma set_input_dict_missing:
  "key \<in> set (input_names self) \<Longrightarrow> set_input_dict self dic key None = Inl AssertionError"
  by (simp add: set_input_dict_def)

lemma set_input_dict_supplied:
  "key \<in> set (input_names self) \<Longrightarrow> set_input_dict self dic key (Some v) = Inr (dic(key \<mapsto> v))"
  by (simp add: set_input_dict_def)

lemma get_input_enc_missing:
  assumes "''feats'' \<in> set (input_names self) \<and> feats = None
         \<or> ''sids'' \<in> set (input_names self) \<and> sids = None
         \<or> ''spembs'' \<in> set (input_names self) \<and> spembs = None
         \<or> ''lids'' \<in> set (input_names self) \<and> lids = None"
  shows "get_input_enc self text feats sids spembs lids = Inl AssertionError"
  using assms
  by (auto simp: get_input_enc_def set_input_dict_def split: sum.splits option.splits)

lemma get_input_enc_supplied:
  assumes "\<not> (''feats'' \<in> set (input_names self) \<and> feats = None
         \<or> ''sids'' \<in> set (input_names self) \<and> sids = None
         \<or> ''spembs'' \<in> set (input_names self) \<and> spembs = None
         \<or> ''lids'' \<in> set (input_names self) \<and> lids = None)"
  shows "\<exists>m. get_input_enc self text feats sids spembs lids = Inr m
           \<and> m ''text'' = Some text
           \<and> m ''feats'' = (if ''feats'' \<in> set (input_names self) then feats else None)
           \<and> m ''sids'' = (if ''sids'' \<in> set (input_names self) then sids else None)
           \<and> m ''spembs'' = (if ''spembs'' \<in> set (input_names self) then spembs else None)
           \<and> m ''lids'' = (if ''lids'' \<in> set (input_names self) then lids else None)"
  using assms
  by (auto simp: get_input_enc_def set_input_dict_def split: sum.splits option.splits)

subsection \<open>The cached attributes\<close>

text \<open>
  \<^verbatim>\<open>init_state\<close> assigns the three cached attributes before the loop reads them, so a
  call does not depend on what they held before, and it changes nothing else of the instance.
\<close>

lemma set_input_dict_cached:
  "set_input_dict (self\<lparr>pre_compute_enc_h := a, enc_h := b, self_mask := c\<rparr>) dic key val
     = set_input_dict self dic key val"
  by (simp add: set_input_dict_def)

lemma get_input_enc_cached:
  "get_input_enc (self\<lparr>pre_compute_enc_h := a, enc_h := b, self_mask := c\<rparr>) text feats sids spembs lids
     = get_input_enc self text feats sids spembs lids"
  by (simp add: get_input_enc_def set_input_dict_cached cong: sum.case_cong)

lemma init_state_cached:
  "fst (init_state (self\<lparr>pre_compute_enc_h := a, enc_h := b, self_mask := c\<rparr>) x)
     = fst (init_state self x)
   \<and> (isl (fst (init_state self x))
      \<or> snd (init_state (self\<lparr>pre_compute_enc_h := a, enc_h := b, self_mask := c\<rparr>) x)
          = snd (init_state self x))"
  by (simp add: init_state_def zero_state_def Let_def split: sum.splits)

lemma call_cached:
  "map_option fst (call (self\<lparr>pre_compute_enc_h := a, enc_h := b, self_mask := c\<rparr>)
                     text feats sids spembs lids)
     = map_option fst (call self text feats sids spembs lids)"
proof -
  let ?self = "self\<lparr>pre_compute_enc_h := a, enc_h := b, self_mask := c\<rparr>"
  show ?thesis
  proof (cases "get_input_enc self text feats sids spembs lids")
    case (Inl e)
    then show ?thesis by (simp add: call_def get_input_enc_cached)
  next
    case enc: (Inr input_enc)
    show ?thesis
    proof (cases "encoder self input_enc")
      case (Inl e)
      with enc show ?thesis by (simp add: call_def get_input_enc_cached)
    next
      case h: (Inr h)
      show ?thesis
      proof (cases "len text")
        case (Inl e)
        with enc h show ?thesis by (simp add: call_def get_input_enc_cached)
      next
        case l: (Inr l)
        obtain r self' where i: "init_state self h = (r, self')" by (cases "init_state self h")
        obtain r2 self2 where i2: "init_state ?self h = (r2, self2)"
          by (cases "init_state ?self h")
        from init_state_cached [where self = self and a = a and b = b and c = c and x = h] i i2
        have r: "r2 = r" and s: "isl r \<or> self2 = self'" by simp_all
        show ?thesis
        proof (cases r)
          case (Inl e)
          with enc h l i i2 r show ?thesis by (simp add: call_def get_input_enc_cached)
        next
          case (Inr st)
          with s have "self2 = self'" by simp
          with Inr enc h l i i2 r show ?thesis
            by (simp add: call_def get_input_enc_cached Let_def split: option.splits sum.splits prod.splits)
        qed
      qed
    qed
  qed
qed

lemma call_self:
  assumes "call self text feats sids spembs lids = Some (r, self')"
  shows "\<exists>a b c. self' = self\<lparr>pre_compute_enc_h := a, enc_h := b, self_mask := c\<rparr>"
proof -
  have 0: "\<exists>a b c. self = self\<lparr>pre_compute_enc_h := a, enc_h := b, self_mask := c\<rparr>"
    by (rule exI [of _ "pre_compute_enc_h self"], rule exI [of _ "enc_h self"],
        rule exI [of _ "self_mask self"]) simp
  have "self' = self \<or> (\<exists>h. self' = snd (init_state self h))"
    using assms
    by (auto simp: call_def Let_def split: sum.splits prod.splits option.splits)
       (metis snd_conv)+
  with 0 init_state_self show ?thesis by metis
qed

section \<open>The claims\<close>

subsection \<open>C1: termination with \<open>maxlen < minlen\<close>\<close>




subsection \<open>C3: below the minimum length the loop goes on\<close>

text \<open>
  C3: in a pass whose index (the index before the pass plus the reduction factor; the
  number of passes times the reduction factor when the loop starts at 0) is below
  \<open>minlen\<close>, the loop is not left, whatever stop probabilities the decoder returned in
  that pass: the loop goes on with the variables of that pass. So the loop started at
  index 0 is never left in a pass \<open>n\<close> with \<open>n * reduction_factor < minlen\<close>.
  (A pass in which the decoder itself fails ends the loop with that exception.)
\<close>

theorem below_minlen_continues:
  "(loop_body self maxlen minlen s = Inr (brk, s')
      \<and> idx s + reduction_factor (config self) < minlen
    \<longrightarrow> \<not> brk \<and> idx s' = idx s + reduction_factor (config self)
        \<and> loop self maxlen minlen s = loop self maxlen minlen s')
   \<and> (loop_exits_after self maxlen minlen n s0 t \<and> idx s0 = 0
    \<longrightarrow> idx t = int n * reduction_factor (config self)
        \<and> minlen \<le> int n * reduction_factor (config self))"
proof (intro conjI impI)
  assume a: "loop_body self maxlen minlen s = Inr (brk, s')
      \<and> idx s + reduction_factor (config self) < minlen"
  then show nb: "\<not> brk" using loop_body_break [of self maxlen minlen s brk s'] by auto
  from a show "idx s' = idx s + reduction_factor (config self)"
    using loop_body_vars [of self maxlen minlen s brk s'] by simp
  from a nb show "loop self maxlen minlen s = loop self maxlen minlen s'"
    by (simp add: loop_continue)
next
  assume a: "loop_exits_after self maxlen minlen n s0 t \<and> idx s0 = 0"
  then show i: "idx t = int n * reduction_factor (config self)"
    using exits_after_vars [of self maxlen minlen n s0 t] by simp
  from a i show "minlen \<le> int n * reduction_factor (config self)"
    using exits_after_minlen [of self maxlen minlen n s0 t] by simp
qed

text \<open>
  The example decoder returns the stop probability 1, above the threshold 1/2, in every
  pass. With \<open>minlen = 3\<close> the first pass (index 1) does not leave the loop, and the loop
  is left in the third pass.
\<close>

theorem below_minlen_continues_witness:
  "loop_body (ex_ready 1 2) 2 3 ex_vars = Inr (False, ex_pass 1 ex_vars)
   \<and> idx ex_vars + reduction_factor (config (ex_ready 1 2)) < 3
   \<and> stop_count (NDArray [1] [1]) (threshold (config (ex_ready 1 2))) = Inr 1
   \<and> loop (ex_ready 1 2) 2 3 ex_vars = loop (ex_ready 1 2) 2 3 (ex_pass 1 ex_vars)
   \<and> loop_exits_after (ex_ready 1 2) 2 3 (Suc (Suc (Suc 0))) ex_vars
        (ex_pass 1 (ex_pass 1 (ex_pass 1 ex_vars)))
   \<and> idx ex_vars = 0
   \<and> (3::int) \<le> int (Suc (Suc (Suc 0))) * reduction_factor (config (ex_ready 1 2))"
proof -
  have b: "loop_body (ex_ready 1 2) 2 3 ex_vars = Inr (False, ex_pass 1 ex_vars)"
    by (simp add: loop_body_def ex_ready_def ex_self_def ex_decoder_def get_input_dec_def
        ex_vars_def ex_pass_def stop_count_def split_states_def numeral_2_eq_2)
  have i: "idx ex_vars + reduction_factor (config (ex_ready 1 2)) < 3"
    by (simp add: ex_ready_def ex_self_def ex_vars_def)
  have k: "stop_count (NDArray [1] [1]) (threshold (config (ex_ready 1 2))) = Inr 1"
    by (simp add: stop_count_def ex_ready_def ex_self_def)
  have e: "loop_exits_after (ex_ready 1 2) 2 3 (Suc (Suc (Suc 0))) ex_vars
        (ex_pass 1 (ex_pass 1 (ex_pass 1 ex_vars)))"
    by (simp add: loop_body_def ex_ready_def ex_self_def ex_decoder_def get_input_dec_def
        ex_vars_def ex_pass_def stop_count_def split_states_def numeral_2_eq_2)
  have z: "idx ex_vars = 0" by (simp add: ex_vars_def)
  from below_minlen_continues [of "ex_ready 1 2" 2 3 ex_vars False "ex_pass 1 ex_vars"
      "Suc (Suc (Suc 0))" ex_vars "ex_pass 1 (ex_pass 1 (ex_pass 1 ex_vars))"] b i k e z
  show ?thesis by simp
qed

subsection \<open>C4: at the maximum length the loop is left\<close>

text \<open>
  C4: in a pass whose index has reached \<open>maxlen\<close> and \<open>minlen\<close>, the loop is left in that
  same pass, whatever stop probabilities the decoder returned, with the variables of
  that pass. (A pass in which the decoder itself fails ends the loop with that exception.)
\<close>

theorem at_maxlen_loop_exits:
  assumes "loop_body self maxlen minlen s = Inr (brk, s')"
    and "maxlen \<le> idx s + reduction_factor (config self)"
    and "minlen \<le> idx s + reduction_factor (config self)"
  shows "brk \<and> loop self maxlen minlen s = Some (Inr s')"
proof -
  from loop_body_break [OF assms(1)] assms(2,3) have brk by simp
  with assms(1) show ?thesis by (simp add: loop_break)
qed

text \<open>
  The example decoder with the stop probability 0, below the threshold 1/2, in every
  pass, \<open>maxlen = 1\<close> and \<open>minlen = 0\<close>: the first pass leaves the loop.
\<close>

theorem at_maxlen_loop_exits_witness:
  "loop_body (ex_ready 0 2) 1 0 ex_vars = Inr (True, ex_pass 0 ex_vars)
   \<and> stop_count (NDArray [1] [0]) (threshold (config (ex_ready 0 2))) = Inr 0
   \<and> (1::int) \<le> idx ex_vars + reduction_factor (config (ex_ready 0 2))
   \<and> (0::int) \<le> idx ex_vars + reduction_factor (config (ex_ready 0 2))
   \<and> loop (ex_ready 0 2) 1 0 ex_vars = Some (Inr (ex_pass 0 ex_vars))"
proof -
  have b: "loop_body (ex_ready 0 2) 1 0 ex_vars = Inr (True, ex_pass 0 ex_vars)"
    by (simp add: loop_body_def ex_ready_def ex_self_def ex_decoder_def get_input_dec_def
        ex_vars_def ex_pass_def stop_count_def split_states_def numeral_2_eq_2)
  have k: "stop_count (NDArray [1] [0]) (threshold (config (ex_ready 0 2))) = Inr 0"
    by (simp add: stop_count_def ex_ready_def ex_self_def)
  have i: "(1::int) \<le> idx ex_vars + reduction_factor (config (ex_ready 0 2))"
    by (simp add: ex_ready_def ex_self_def ex_vars_def)
  have j: "(0::int) \<le> idx ex_vars + reduction_factor (config (ex_ready 0 2))"
    by (simp add: ex_ready_def ex_self_def ex_vars_def)
  from at_maxlen_loop_exits [OF b i j] b k i j show ?thesis by simp
qed

subsection \<open>C6: the accumulators count the passes\<close>

text \<open>
  C6: when the loop, started with empty accumulators at index 0 as \<^verbatim>\<open>__call__\<close>
  starts it, is left in its \<open>n\<close>-th pass, the accumulators of the stop probabilities, of
  the attention weights and of the frames hold \<open>n\<close> entries each, and, provided every
  decoder invocation returns a frame block of shape \<open>(b, d, reduction_factor)\<close>, the
  concatenation of the frames along axis 2 succeeds with the time length
  \<open>n * reduction_factor\<close>.
\<close>

theorem accumulators_count_passes:
  assumes "loop_exits_after self maxlen minlen n s0 t"
    and "idx s0 = 0" and "outs s0 = []" and "probs s0 = []" and "att_ws s0 = []"
    and "\<forall>inp out rest. decoder self inp = Inr (out # rest)
           \<longrightarrow> shape out = [b, d, nat (reduction_factor (config self))]"
  shows "loop self maxlen minlen s0 = Some (Inr t)
       \<and> length (probs t) = n \<and> length (att_ws t) = n \<and> length (outs t) = n
       \<and> idx t = int n * reduction_factor (config self)
       \<and> (\<exists>fr. concatenate (outs t) 2 = Inr fr
               \<and> shape fr = [b, d, n * nat (reduction_factor (config self))])"
proof -
  note v = exits_after_vars [OF assms(1)]
  have n: "0 < n" using assms(1) by (cases n) simp_all
  have "list_all (\<lambda>a. shape a = [b, d, nat (reduction_factor (config self))]) (outs t)"
    using exits_after_frames [OF _ assms(1), of "[b, d, nat (reduction_factor (config self))]"]
      assms(3,6) by simp
  moreover have "outs t \<noteq> []" using v n assms(3) by auto
  ultimately have "\<exists>fr. concatenate (outs t) 2 = Inr fr
      \<and> shape fr = [b, d, length (outs t) * nat (reduction_factor (config self))]"
    by (rule concatenate_last_axis [rotated])
  with v assms(2-5) exits_after_loop [OF assms(1)] show ?thesis by simp
qed

text \<open>
  The example decoder with the stop probability 1 and \<open>minlen = 3\<close>: three passes, three
  entries in each accumulator, three frames after the concatenation.
\<close>

theorem accumulators_count_passes_witness:
  "loop_exits_after (ex_ready 1 2) 2 3 (Suc (Suc (Suc 0))) ex_vars
        (ex_pass 1 (ex_pass 1 (ex_pass 1 ex_vars)))
   \<and> idx ex_vars = 0 \<and> outs ex_vars = [] \<and> probs ex_vars = [] \<and> att_ws ex_vars = []
   \<and> length (probs (ex_pass 1 (ex_pass 1 (ex_pass 1 ex_vars)))) = 3
   \<and> length (att_ws (ex_pass 1 (ex_pass 1 (ex_pass 1 ex_vars)))) = 3
   \<and> concatenate (outs (ex_pass 1 (ex_pass 1 (ex_pass 1 ex_vars)))) 2
       = Inr (NDArray [1, 1, 3] [0, 0, 0])"
proof -
  have e: "loop_exits_after (ex_ready 1 2) 2 3 (Suc (Suc (Suc 0))) ex_vars
        (ex_pass 1 (ex_pass 1 (ex_pass 1 ex_vars)))"
    by (simp add: loop_body_def ex_ready_def ex_self_def ex_decoder_def get_input_dec_def
        ex_vars_def ex_pass_def stop_count_def split_states_def numeral_2_eq_2)
  have d: "\<forall>inp out rest. decoder (ex_ready 1 2) inp = Inr (out # rest)
           \<longrightarrow> shape out = [1, 1, nat (reduction_factor (config (ex_ready 1 2)))]"
    by (auto simp: ex_ready_def ex_self_def ex_decoder_def ex_frame_def)
  have c: "concatenate (outs (ex_pass 1 (ex_pass 1 (ex_pass 1 ex_vars)))) 2
       = Inr (NDArray [1, 1, 3] [0, 0, 0])"
    by (simp add: concatenate_def inner_def ex_pass_def ex_vars_def ex_frame_def)
  have z: "idx ex_vars = 0 \<and> outs ex_vars = [] \<and> probs ex_vars = [] \<and> att_ws ex_vars = []"
    by (simp add: ex_vars_def)
  from accumulators_count_passes [OF e _ _ _ _ d] z c e show ?thesis by simp
qed

subsection \<open>C2: state initialisation and the input length\<close>




subsection \<open>C5: splitting the trailing state outputs\<close>

text \<open>
  C5, as claimed: the trailing outputs are split into two halves of equal length, and a
  sequence whose length is not \<open>2 * dlayers\<close> fails with a ModelContractError. The code
  makes no such check: three trailing outputs are split into one cell state and two hidden
  states, and the pass of the loop that receives them, with \<open>dlayers = 1\<close>, raises
  nothing.
\<close>

theorem split_uneven_no_error:
  "split_states [ex_vec, ex_att, ex_frame] = ([ex_vec], [ex_att, ex_frame])
   \<and> dlayers (config (ex_ready 1 3)) = 1
   \<and> map_sum id (\<lambda>(brk, s). (length (c_list s), length (z_list s)))
        (loop_body (ex_ready 1 3) 2 0 ex_vars) = Inr (1, 2)"
  by (simp add: split_states_def loop_body_def ex_ready_def ex_self_def ex_decoder_def
      get_input_dec_def ex_vars_def stop_count_def numeral_3_eq_3)

text \<open>
  C5, amended: the split never fails and does not look at \<open>dlayers\<close>. It cuts the
  sequence at \<open>len // 2\<close>: the cell states are the first \<open>len // 2\<close> entries, the hidden
  states the remaining \<open>len - len // 2\<close>, and the two parts have the same length exactly
  when \<open>len\<close> is even.
\<close>

theorem split_states_at_midpoint:
  "split_states xs = (take (length xs div 2) xs, drop (length xs div 2) xs)
   \<and> fst (split_states xs) @ snd (split_states xs) = xs
   \<and> length (fst (split_states xs)) = length xs div 2
   \<and> length (snd (split_states xs)) = length xs - length xs div 2
   \<and> (length (fst (split_states xs)) = length (snd (split_states xs))) = even (length xs)"
proof -
  have "(n div 2 = n - n div 2) = even n" for n :: nat by presburger
  then show ?thesis by (simp add: split_states_def Let_def)
qed

subsection \<open>C7: the initial state\<close>



subsection \<open>C8: a declared input must be supplied\<close>

text \<open>
  C8: when one of \<^verbatim>\<open>feats\<close>, \<^verbatim>\<open>sids\<close>, \<^verbatim>\<open>spembs\<close>, \<^verbatim>\<open>lids\<close> is among the
  encoder's input names and its value is \<open>None\<close>, building the encoder's inputs fails
  with the AssertionError, and the call returns that error whatever the encoder \<open>enc\<close> is:
  the encoder is not reached. When every declared input is supplied, the inputs are built
  and hold each declared input under its name.
\<close>

theorem declared_input_required:
  "(''feats'' \<in> set (input_names self) \<and> feats = None
      \<or> ''sids'' \<in> set (input_names self) \<and> sids = None
      \<or> ''spembs'' \<in> set (input_names self) \<and> spembs = None
      \<or> ''lids'' \<in> set (input_names self) \<and> lids = None
    \<longrightarrow> get_input_enc self text feats sids spembs lids = Inl AssertionError
        \<and> call (self\<lparr>encoder := enc\<rparr>) text feats sids spembs lids
            = Some (Inl AssertionError, self\<lparr>encoder := enc\<rparr>))
   \<and> (\<not> (''feats'' \<in> set (input_names self) \<and> feats = None
      \<or> ''sids'' \<in> set (input_names self) \<and> sids = None
      \<or> ''spembs'' \<in> set (input_names self) \<and> spembs = None
      \<or> ''lids'' \<in> set (input_names self) \<and> lids = None)
    \<longrightarrow> (\<exists>m. get_input_enc self text feats sids spembs lids = Inr m
           \<and> m ''text'' = Some text
           \<and> (''feats'' \<in> set (input_names self) \<longrightarrow> m ''feats'' = feats \<and> feats \<noteq> None)
           \<and> (''sids'' \<in> set (input_names self) \<longrightarrow> m ''sids'' = sids \<and> sids \<noteq> None)
           \<and> (''spembs'' \<in> set (input_names self) \<longrightarrow> m ''spembs'' = spembs \<and> spembs \<noteq> None)
           \<and> (''lids'' \<in> set (input_names self) \<longrightarrow> m ''lids'' = lids \<and> lids \<noteq> None)))"
proof (intro conjI impI)
  assume a: "''feats'' \<in> set (input_names self) \<and> feats = None
      \<or> ''sids'' \<in> set (input_names self) \<and> sids = None
      \<or> ''spembs'' \<in> set (input_names self) \<and> spembs = None
      \<or> ''lids'' \<in> set (input_names self) \<and> lids = None"
  then show "get_input_enc self text feats sids spembs lids = Inl AssertionError"
    by (rule get_input_enc_missing)
  from a have "get_input_enc (self\<lparr>encoder := enc\<rparr>) text feats sids spembs lids
      = Inl AssertionError"
    using get_input_enc_missing [of "self\<lparr>encoder := enc\<rparr>" feats sids spembs lids "text"]
    by simp
  then show "call (self\<lparr>encoder := enc\<rparr>) text feats sids spembs lids
            = Some (Inl AssertionError, self\<lparr>encoder := enc\<rparr>)"
    by (simp add: call_def)
next
  assume a: "\<not> (''feats'' \<in> set (input_names self) \<and> feats = None
      \<or> ''sids'' \<in> set (input_names self) \<and> sids = None
      \<or> ''spembs'' \<in> set (input_names self) \<and> spembs = None
      \<or> ''lids'' \<in> set (input_names self) \<and> lids = None)"
  from get_input_enc_supplied [OF a, of "text"] obtain m
    where m: "get_input_enc self text feats sids spembs lids = Inr m"
      "m ''text'' = Some text"
      "m ''feats'' = (if ''feats'' \<in> set (input_names self) then feats else None)"
      "m ''sids'' = (if ''sids'' \<in> set (input_names self) then sids else None)"
      "m ''spembs'' = (if ''spembs'' \<in> set (input_names self) then spembs else None)"
      "m ''lids'' = (if ''lids'' \<in> set (input_names self) then lids else None)"
    by blast
  with a show "\<exists>m. get_input_enc self text feats sids spembs lids = Inr m
           \<and> m ''text'' = Some text
           \<and> (''feats'' \<in> set (input_names self) \<longrightarrow> m ''feats'' = feats \<and> feats \<noteq> None)
           \<and> (''sids'' \<in> set (input_names self) \<longrightarrow> m ''sids'' = sids \<and> sids \<noteq> None)
           \<and> (''spembs'' \<in> set (input_names self) \<longrightarrow> m ''spembs'' = spembs \<and> spembs \<noteq> None)
           \<and> (''lids'' \<in> set (input_names self) \<longrightarrow> m ''lids'' = lids \<and> lids \<noteq> None)"
    by auto
qed

theorem declared_input_required_witness:
  "''sids'' \<in> set (input_names (ex_self 1 2 [''text'', ''sids'']))
   \<and> get_input_enc (ex_self 1 2 [''text'', ''sids'']) (NDArray [3] [1, 2, 3]) None None None None
       = Inl AssertionError
   \<and> call ((ex_self 1 2 [''text'', ''sids''])\<lparr>encoder := (\<lambda>inp. Inl (InferenceError 0))\<rparr>)
          (NDArray [3] [1, 2, 3]) None None None None
       = Some (Inl AssertionError,
               (ex_self 1 2 [''text'', ''sids''])\<lparr>encoder := (\<lambda>inp. Inl (InferenceError 0))\<rparr>)
   \<and> get_input_enc (ex_self 1 2 [''text'', ''sids'']) (NDArray [3] [1, 2, 3])
          None (Some (NDArray [1] [7])) None None
       = Inr [''text'' \<mapsto> NDArray [3] [1, 2, 3], ''sids'' \<mapsto> NDArray [1] [7]]"
proof -
  have n: "''sids'' \<in> set (input_names (ex_self 1 2 [''text'', ''sids'']))"
    by (simp add: ex_self_def)
  have g: "get_input_enc (ex_self 1 2 [''text'', ''sids'']) (NDArray [3] [1, 2, 3])
          None (Some (NDArray [1] [7])) None None
       = Inr [''text'' \<mapsto> NDArray [3] [1, 2, 3], ''sids'' \<mapsto> NDArray [1] [7]]"
    by (simp add: get_input_enc_def set_input_dict_def ex_self_def)
  from declared_input_required [of "ex_self 1 2 [''text'', ''sids'']" None None None None
      "NDArray [3] [1, 2, 3]" "\<lambda>inp. Inl (InferenceError 0)"] n g
  show ?thesis by simp
qed

subsection \<open>C9: repeated calls\<close>

text \<open>
  C9: the sessions being functions, the outcome of a call (result, exception or
  non-termination) does not depend on what the three cached attributes held before it;
  so a second call on the same inputs, on the instance as the first call left it,
  has the outcome of the first.
\<close>

theorem call_deterministic:
  "map_option fst (call (self\<lparr>pre_compute_enc_h := a, enc_h := b, self_mask := c\<rparr>)
                     text' feats sids spembs lids)
     = map_option fst (call self text' feats sids spembs lids)
   \<and> (call self text' feats sids spembs lids = Some (r, self')
      \<longrightarrow> map_option fst (call self' text' feats sids spembs lids) = Some r)"
proof (intro conjI impI)
  show "map_option fst (call (self\<lparr>pre_compute_enc_h := a, enc_h := b, self_mask := c\<rparr>)
                     text' feats sids spembs lids)
     = map_option fst (call self text' feats sids spembs lids)"
    by (rule call_cached)
next
  assume c: "call self text' feats sids spembs lids = Some (r, self')"
  from call_self [OF c] obtain a' b' c'
    where "self' = self\<lparr>pre_compute_enc_h := a', enc_h := b', self_mask := c'\<rparr>" by blast
  with call_cached [where self = self and a = a' and b = b' and c = c'] c
  show "map_option fst (call self' text' feats sids spembs lids) = Some r" by simp
qed

theorem call_deterministic_witness:
  "call (ex_self 1 2 [''text'']) (NDArray [3] [1, 2, 3]) None None None None
       = Some (Inr \<lparr>feat_gen = ex_frame, prob = NDArray [1] [1], att_w = ex_att\<rparr>, ex_ready 1 2)
   \<and> map_option fst (call (ex_ready 1 2) (NDArray [3] [1, 2, 3]) None None None None)
       = Some (Inr \<lparr>feat_gen = ex_frame, prob = NDArray [1] [1], att_w = ex_att\<rparr>)"
proof -
  have c: "call (ex_self 1 2 [''text'']) (NDArray [3] [1, 2, 3]) None None None None
       = Some (Inr \<lparr>feat_gen = ex_frame, prob = NDArray [1] [1], att_w = ex_att\<rparr>, ex_ready 1 2)"
    by (simp add: call_def get_input_enc_def set_input_dict_def len_def py_int_def loop.simps
        loop_body_def ex_self_def ex_ready_def ex_decoder_def get_input_dec_def stop_count_def
        split_states_def init_state_def expand0_def zero_state_def shape0_def zeros_def
        get_att_prev_def make_pad_mask_single map_data_def ex_vec_def finish_def concatenate_def
        inner_def ex_frame_def ex_att_def numeral_2_eq_2)
  from call_deterministic [where self = "ex_self 1 2 [''text'']" and self' = "ex_ready 1 2"
      and r = "Inr \<lparr>feat_gen = ex_frame, prob = NDArray [1] [1], att_w = ex_att\<rparr>"
      and text' = "NDArray [3] [1, 2, 3]" and feats = None and sids = None and spembs = None
      and lids = None and a = None and b = None and c = None] c
  show ?thesis by simp
qed

subsection \<open>C10: an undeclared input is left out\<close>

text \<open>
  C10: a key that is not among the encoder's input names is not stored and raises
  nothing; for each of the four conditioning inputs, when its name is not declared, the
  encoder's inputs and the whole call are the same as if the value had been \<open>None\<close>.
\<close>

theorem undeclared_input_omitted:
  "(key \<notin> set (input_names self) \<longrightarrow> set_input_dict self dic key val = Inr dic)
   \<and> (''feats'' \<notin> set (input_names self) \<longrightarrow>
        get_input_enc self text feats sids spembs lids = get_input_enc self text None sids spembs lids
      \<and> call self text feats sids spembs lids = call self text None sids spembs lids)
   \<and> (''sids'' \<notin> set (input_names self) \<longrightarrow>
        get_input_enc self text feats sids spembs lids = get_input_enc self text feats None spembs lids
      \<and> call self text feats sids spembs lids = call self text feats None spembs lids)
   \<and> (''spembs'' \<notin> set (input_names self) \<longrightarrow>
        get_input_enc self text feats sids spembs lids = get_input_enc self text feats sids None lids
      \<and> call self text feats sids spembs lids = call self text feats sids None lids)
   \<and> (''lids'' \<notin> set (input_names self) \<longrightarrow>
        get_input_enc self text feats sids spembs lids = get_input_enc self text feats sids spembs None
      \<and> call self text feats sids spembs lids = call self text feats sids spembs None)"
  by (simp add: call_def get_input_enc_def set_input_dict_undeclared cong: sum.case_cong)

theorem undeclared_input_omitted_witness:
  "''feats'' \<notin> set (input_names (ex_self 1 2 [''text'']))
   \<and> get_input_enc (ex_self 1 2 [''text'']) (NDArray [3] [1, 2, 3]) (Some (NDArray [1] [7])) None None None
       = Inr [''text'' \<mapsto> NDArray [3] [1, 2, 3]]
   \<and> call (ex_self 1 2 [''text'']) (NDArray [3] [1, 2, 3]) (Some (NDArray [1] [7])) None None None
       = call (ex_self 1 2 [''text'']) (NDArray [3] [1, 2, 3]) None None None None
   \<and> call (ex_self 1 2 [''text'']) (NDArray [3] [1, 2, 3]) None None None None
       = Some (Inr \<lparr>feat_gen = ex_frame, prob = NDArray [1] [1], att_w = ex_att\<rparr>, ex_ready 1 2)"
proof -
  have n: "''feats'' \<notin> set (input_names (ex_self 1 2 [''text'']))"
    by (simp add: ex_self_def)
  have g: "get_input_enc (ex_self 1 2 [''text'']) (NDArray [3] [1, 2, 3]) None None None None
       = Inr [''text'' \<mapsto> NDArray [3] [1, 2, 3]]"
    by (simp add: get_input_enc_def set_input_dict_def ex_self_def)
  have c: "call (ex_self 1 2 [''text'']) (NDArray [3] [1, 2, 3]) None None None None
       = Some (Inr \<lparr>feat_gen = ex_frame, prob = NDArray [1] [1], att_w = ex_att\<rparr>, ex_ready 1 2)"
    by (simp add: call_def get_input_enc_def set_input_dict_def len_def py_int_def loop.simps
        loop_body_def ex_self_def ex_ready_def ex_decoder_def get_input_dec_def stop_count_def
        split_states_def init_state_def expand0_def zero_state_def shape0_def zeros_def
        get_att_prev_def make_pad_mask_single map_data_def ex_vec_def finish_def concatenate_def
        inner_def ex_frame_def ex_att_def numeral_2_eq_2)
  from undeclared_input_omitted [of "''feats''" "ex_self 1 2 [''text'']" Map.empty None
      "NDArray [3] [1, 2, 3]" "Some (NDArray [1] [7])" None None None] n g c
  show ?thesis by simp
qed

end
